theory Spec2Isabelle
  imports Main "HOL-Library.Word"
begin

unbundle bit_operations_syntax

section \<open>Strings and paths\<close>

text \<open>
  A Go string is a sequence of bytes; \<open>Path\<close> is declared as \<^verbatim>\<open>type Path string\<close>.
  Both are modelled as \<open>string\<close> (a list of 8-bit characters); \<open>length\<close> is Go's
  \<^verbatim>\<open>len\<close>. The host is a Unix one, as in the repository's tests: the path separator
  is the slash and there are no volume names.
\<close>

type_synonym Path = string

datatype panic = SliceOutOfRange

text \<open>The slice expression \<^verbatim>\<open>s[lo:hi]\<close>, which panics outside \<open>0 \<le> lo \<le> hi \<le> len(s)\<close>.\<close>

definition go_slice :: "string \<Rightarrow> int \<Rightarrow> int \<Rightarrow> panic + string" where
  "go_slice s lo hi =
     (if 0 \<le> lo \<and> lo \<le> hi \<and> hi \<le> int (length s)
      then Inr (drop (nat lo) (take (nat hi) s))
      else Inl SliceOutOfRange)"

definition os_IsPathSeparator :: "char \<Rightarrow> bool" where
  "os_IsPathSeparator c = (c = CHR ''/'')"

subsection \<open>strings.TrimSpace and strings.Contains\<close>

text \<open>
  \<^verbatim>\<open>strings.TrimSpace\<close> removes the leading and then the trailing white-space runes of
  the UTF-8 text, white space being what \<^verbatim>\<open>unicode.IsSpace\<close> accepts: U+0009 to U+000D,
  U+0020, U+0085, U+00A0, U+1680, U+2000 to U+200A, U+2028, U+2029, U+202F, U+205F and
  U+3000. The decoder accepts only the shortest encoding of a code point, so a rune of
  this list starts (ends) the string exactly when its encoding below does.
\<close>

definition space_encodings :: "string list" where
  "space_encodings =
     [[CHR 0x09], [CHR 0x0A], [CHR 0x0B], [CHR 0x0C], [CHR 0x0D], [CHR 0x20],
      [CHR 0xC2, CHR 0x85], [CHR 0xC2, CHR 0xA0],
      [CHR 0xE1, CHR 0x9A, CHR 0x80],
      [CHR 0xE2, CHR 0x80, CHR 0x80], [CHR 0xE2, CHR 0x80, CHR 0x81],
      [CHR 0xE2, CHR 0x80, CHR 0x82], [CHR 0xE2, CHR 0x80, CHR 0x83],
      [CHR 0xE2, CHR 0x80, CHR 0x84], [CHR 0xE2, CHR 0x80, CHR 0x85],
      [CHR 0xE2, CHR 0x80, CHR 0x86], [CHR 0xE2, CHR 0x80, CHR 0x87],
      [CHR 0xE2, CHR 0x80, CHR 0x88], [CHR 0xE2, CHR 0x80, CHR 0x89],
      [CHR 0xE2, CHR 0x80, CHR 0x8A],
      [CHR 0xE2, CHR 0x80, CHR 0xA8], [CHR 0xE2, CHR 0x80, CHR 0xA9],
      [CHR 0xE2, CHR 0x80, CHR 0xAF],
      [CHR 0xE2, CHR 0x81, CHR 0x9F],
      [CHR 0xE3, CHR 0x80, CHR 0x80]]"

text \<open>The width in bytes of a white-space rune at the start (end) of \<open>s\<close>; 0 if there is none.\<close>

definition leading_space :: "string \<Rightarrow> nat" where
  "leading_space s =
     (case find (\<lambda>e. take (length e) s = e) space_encodings of
        None \<Rightarrow> 0 | Some e \<Rightarrow> length e)"

definition trailing_space :: "string \<Rightarrow> nat" where
  "trailing_space s =
     (case find (\<lambda>e. length e \<le> length s \<and> drop (length s - length e) s = e) space_encodings of
        None \<Rightarrow> 0 | Some e \<Rightarrow> length e)"

function TrimLeftSpace :: "string \<Rightarrow> string" where
  "TrimLeftSpace s =
     (if leading_space s = 0 \<or> s = [] then s else TrimLeftSpace (drop (leading_space s) s))"
  by pat_completeness auto
termination
  by (relation "measure length") auto

function TrimRightSpace :: "string \<Rightarrow> string" where
  "TrimRightSpace s =
     (if trailing_space s = 0 \<or> s = [] then s
      else TrimRightSpace (take (length s - trailing_space s) s))"
  by pat_completeness auto
termination
  by (relation "measure length") auto

definition strings_TrimSpace :: "string \<Rightarrow> string" where
  "strings_TrimSpace s = TrimRightSpace (TrimLeftSpace s)"

text \<open>\<^verbatim>\<open>strings.Contains(s, substr)\<close>: \<open>substr\<close> occurs in \<open>s\<close> at some offset.\<close>

fun strings_Contains :: "string \<Rightarrow> string \<Rightarrow> bool" where
  "strings_Contains [] substr = (substr = [])"
| "strings_Contains (c # cs) substr =
     (take (length substr) (c # cs) = substr \<or> strings_Contains cs substr)"

subsection \<open>path/filepath\<close>

text \<open>
  \<^verbatim>\<open>filepath.Ext\<close>: the loop runs \<open>i\<close> from \<open>len(path) - 1\<close> down while \<open>path[i]\<close> is not a
  separator and returns \<open>path[i:]\<close> at the first dot. The counter of \<open>Ext_loop\<close> is
  \<open>i + 1\<close>.
\<close>

fun Ext_loop :: "string \<Rightarrow> nat \<Rightarrow> string" where
  "Ext_loop path 0 = []"
| "Ext_loop path (Suc i) =
     (if os_IsPathSeparator (path ! i) then []
      else if path ! i = CHR ''.'' then drop i path
      else Ext_loop path i)"

definition filepath_Ext :: "string \<Rightarrow> string" where
  "filepath_Ext path = Ext_loop path (length path)"

text \<open>
  \<^verbatim>\<open>filepath.Clean\<close>. The output buffer of the source (a \<^verbatim>\<open>lazybuf\<close> with write index
  \<open>w\<close>) is the string \<open>out\<close>, with \<open>w = length out\<close>. \<open>lazybuf_backtrack buf w dotdot\<close>
  is the inner loop of the \<^verbatim>\<open>..\<close> case, entered after the first \<^verbatim>\<open>out.w--\<close>.
\<close>

fun lazybuf_backtrack :: "string \<Rightarrow> nat \<Rightarrow> nat \<Rightarrow> nat" where
  "lazybuf_backtrack buf w dotdot =
     (if w > dotdot \<and> \<not> os_IsPathSeparator (buf ! w)
      then lazybuf_backtrack buf (w - 1) dotdot else w)"

declare lazybuf_backtrack.simps [simp del]

definition is_dot_element :: "string \<Rightarrow> bool" where
  "is_dot_element path =
     (case path of
        c # rest \<Rightarrow> c = CHR ''.'' \<and> (case rest of [] \<Rightarrow> True | d # _ \<Rightarrow> os_IsPathSeparator d)
      | [] \<Rightarrow> False)"

definition is_dotdot_element :: "string \<Rightarrow> bool" where
  "is_dotdot_element path =
     (case path of
        c # d # rest \<Rightarrow>
          c = CHR ''.'' \<and> d = CHR ''.'' \<and> (case rest of [] \<Rightarrow> True | e # _ \<Rightarrow> os_IsPathSeparator e)
      | _ \<Rightarrow> False)"

function Clean_loop :: "bool \<Rightarrow> string \<Rightarrow> string \<Rightarrow> nat \<Rightarrow> string" where
  "Clean_loop rooted [] out dotdot = out"
| "Clean_loop rooted (c # cs) out dotdot =
     (if os_IsPathSeparator c then Clean_loop rooted cs out dotdot
      else if is_dot_element (c # cs) then Clean_loop rooted cs out dotdot
      else if is_dotdot_element (c # cs) then
        (if length out > dotdot then
           Clean_loop rooted (tl cs) (take (lazybuf_backtrack out (length out - 1) dotdot) out) dotdot
         else if \<not> rooted then
           (let out' = (if length out > 0 then out @ ''/'' else out) @ ''..''
            in Clean_loop rooted (tl cs) out' (length out'))
         else Clean_loop rooted (tl cs) out dotdot)
      else
        (let out' = (if rooted \<and> length out \<noteq> 1 \<or> \<not> rooted \<and> length out \<noteq> 0
                     then out @ ''/'' else out)
         in Clean_loop rooted (dropWhile (\<lambda>x. \<not> os_IsPathSeparator x) cs)
              (out' @ c # takeWhile (\<lambda>x. \<not> os_IsPathSeparator x) cs) dotdot))"
  by pat_completeness auto
termination
  by (relation "measure (\<lambda>(rooted, path, out, dotdot). length path)")
     (auto simp: less_Suc_eq_le length_dropWhile_le)

definition filepath_Clean :: "string \<Rightarrow> string" where
  "filepath_Clean path =
     (if path = [] then ''.''
      else
        let rooted = os_IsPathSeparator (hd path);
            out = (if rooted then Clean_loop rooted (tl path) ''/'' 1
                   else Clean_loop rooted path [] 0)
        in if out = [] then ''.'' else out)"

fun strings_Join :: "string list \<Rightarrow> string \<Rightarrow> string" where
  "strings_Join [] sep = []"
| "strings_Join [e] sep = e"
| "strings_Join (e # es) sep = e @ sep @ strings_Join es sep"

definition filepath_Join :: "string list \<Rightarrow> string" where
  "filepath_Join elem =
     (case dropWhile (\<lambda>e. e = []) elem of
        [] \<Rightarrow> []
      | es \<Rightarrow> filepath_Clean (strings_Join es ''/''))"

definition filepath_IsAbs :: "string \<Rightarrow> bool" where
  "filepath_IsAbs path = (take 1 path = ''/'')"

text \<open>\<^verbatim>\<open>filepath.Dir\<close>: the loop moves \<open>i\<close> down to the last separator; the counter is \<open>i + 1\<close>.\<close>

fun Dir_loop :: "string \<Rightarrow> nat \<Rightarrow> nat" where
  "Dir_loop path 0 = 0"
| "Dir_loop path (Suc i) = (if os_IsPathSeparator (path ! i) then Suc i else Dir_loop path i)"

definition filepath_Dir :: "string \<Rightarrow> string" where
  "filepath_Dir path = filepath_Clean (take (Dir_loop path (length path)) path)"

text \<open>
  The final segment of a path, in the spec's words: the text after the last separator
  (the whole path when it has none).
\<close>

definition final_segment :: "string \<Rightarrow> string" where
  "final_segment p = rev (takeWhile (\<lambda>c. c \<noteq> CHR ''/'') (rev p))"

text \<open>
  A plain name is a path element that \<^verbatim>\<open>Clean\<close> keeps as it is: not empty, without a
  separator, and neither \<^verbatim>\<open>.\<close> nor \<^verbatim>\<open>..\<close>.
\<close>

definition plain_name :: "string \<Rightarrow> bool" where
  "plain_name n = (n \<noteq> [] \<and> CHR ''/'' \<notin> set n \<and> n \<noteq> ''.'' \<and> n \<noteq> ''..'')"

section \<open>The methods of Path that only compute on the string\<close>

definition WithSuffix :: "Path \<Rightarrow> string \<Rightarrow> panic + Path" where
  "WithSuffix p suffix0 =
     (let pStr = p;
          suffix = strings_TrimSpace suffix0;
          oldSuffix = filepath_Ext pStr
      in if length oldSuffix = 0 \<and> length suffix = 0 then Inr p
         else if length oldSuffix = 0 \<and> length suffix > 0 then Inr (pStr @ ''.'' @ suffix)
         else
           let oldSuffixLen = int (length oldSuffix);
               oldSuffixLen = (if length suffix > 0 then oldSuffixLen - 1 else oldSuffixLen)
           in case go_slice pStr 0 (int (length pStr) - oldSuffixLen) of
                Inl e \<Rightarrow> Inl e
              | Inr withoutOldSuffix \<Rightarrow> Inr (withoutOldSuffix @ suffix))"

definition JoinPath :: "Path \<Rightarrow> Path list \<Rightarrow> Path" where
  "JoinPath p paths = foldl (\<lambda>ret path. filepath_Join [ret, path]) p paths"


section \<open>The host\<close>

text \<open>
  Everything else reaches the operating system through Go's \<^verbatim>\<open>os\<close> and \<^verbatim>\<open>path/filepath\<close>
  packages. The host is a parameter: a record of these primitives over a state \<open>'w\<close> of
  the file system and process (working directory, open files). A primitive that changes
  the state returns the new one. An \<^verbatim>\<open>error\<close> is a host error code or a message made by
  \<^verbatim>\<open>fmt.Errorf\<close>.
\<close>

datatype error = Errno nat | Errorf string

type_synonym FileMode = "32 word"

type_synonym File = nat

type_synonym byte = "8 word"

record FileInfo =
  Mode :: FileMode

record 'w host =
  os_Getwd :: "'w \<Rightarrow> error + string"
  os_Stat :: "'w \<Rightarrow> string \<Rightarrow> error + FileInfo"
  filepath_Glob :: "'w \<Rightarrow> string \<Rightarrow> error + string list"
  os_MkdirAll :: "'w \<Rightarrow> string \<Rightarrow> FileMode \<Rightarrow> error option \<times> 'w"
  os_Mkdir :: "'w \<Rightarrow> string \<Rightarrow> FileMode \<Rightarrow> error option \<times> 'w"
  os_Create :: "'w \<Rightarrow> string \<Rightarrow> (error + File) \<times> 'w"
  os_OpenFile :: "'w \<Rightarrow> string \<Rightarrow> int \<Rightarrow> FileMode \<Rightarrow> (error + File) \<times> 'w"
  File_Write :: "'w \<Rightarrow> File \<Rightarrow> byte list \<Rightarrow> (nat \<times> error option) \<times> 'w"
  File_Close :: "'w \<Rightarrow> File \<Rightarrow> error option \<times> 'w"

text \<open>The mode bits of \<^verbatim>\<open>io/fs\<close> and the open flags of \<^verbatim>\<open>os\<close> (their Linux values).\<close>

definition ModeDir :: FileMode where "ModeDir = push_bit 31 1"
definition ModeSymlink :: FileMode where "ModeSymlink = push_bit 27 1"
definition ModeDevice :: FileMode where "ModeDevice = push_bit 26 1"
definition ModeNamedPipe :: FileMode where "ModeNamedPipe = push_bit 25 1"
definition ModeSocket :: FileMode where "ModeSocket = push_bit 24 1"
definition ModeCharDevice :: FileMode where "ModeCharDevice = push_bit 21 1"
definition ModeIrregular :: FileMode where "ModeIrregular = push_bit 19 1"

definition ModeType :: FileMode where
  "ModeType = ModeDir OR ModeSymlink OR ModeNamedPipe OR ModeSocket OR ModeDevice
                OR ModeCharDevice OR ModeIrregular"

definition ModePerm :: FileMode where "ModePerm = 0x1FF"

definition FileMode_IsDir :: "FileMode \<Rightarrow> bool" where
  "FileMode_IsDir m = (m AND ModeDir \<noteq> 0)"

definition FileMode_IsRegular :: "FileMode \<Rightarrow> bool" where
  "FileMode_IsRegular m = (m AND ModeType = 0)"

definition FileMode_Perm :: "FileMode \<Rightarrow> FileMode" where
  "FileMode_Perm m = m AND ModePerm"

definition O_RDONLY :: int where "O_RDONLY = 0x0"
definition O_WRONLY :: int where "O_WRONLY = 0x1"
definition O_RDWR :: int where "O_RDWR = 0x2"
definition O_CREATE :: int where "O_CREATE = 0x40"
definition O_APPEND :: int where "O_APPEND = 0x400"

text \<open>\<^verbatim>\<open>filepath.Abs\<close> on Unix: a rooted path is cleaned, any other is joined to the working directory.\<close>

definition filepath_Abs :: "'w host \<Rightarrow> 'w \<Rightarrow> string \<Rightarrow> error + string" where
  "filepath_Abs h w path =
     (if filepath_IsAbs path then Inr (filepath_Clean path)
      else case os_Getwd h w of
             Inl err \<Rightarrow> Inl err
           | Inr wd \<Rightarrow> Inr (filepath_Join [wd, path]))"

section \<open>The methods of Path that call the host\<close>

definition Exists :: "'w host \<Rightarrow> 'w \<Rightarrow> Path \<Rightarrow> bool" where
  "Exists h w p =
     (case filepath_Abs h w p of
        Inl err \<Rightarrow> False
      | Inr absPath \<Rightarrow>
          (case os_Stat h w absPath of
             Inl err \<Rightarrow> False
           | Inr _ \<Rightarrow> True))"

definition IsDir :: "'w host \<Rightarrow> 'w \<Rightarrow> Path \<Rightarrow> bool" where
  "IsDir h w p =
     (case filepath_Abs h w p of
        Inl err \<Rightarrow> False
      | Inr absPath \<Rightarrow>
          (case os_Stat h w absPath of
             Inl err \<Rightarrow> False
           | Inr stat \<Rightarrow> (let mode = Mode stat in if FileMode_IsDir mode then True else False)))"

definition IsFile :: "'w host \<Rightarrow> 'w \<Rightarrow> Path \<Rightarrow> bool" where
  "IsFile h w p =
     (case filepath_Abs h w p of
        Inl err \<Rightarrow> False
      | Inr absPath \<Rightarrow>
          (case os_Stat h w absPath of
             Inl err \<Rightarrow> False
           | Inr stat \<Rightarrow> (let mode = Mode stat in if FileMode_IsRegular mode then True else False)))"

definition Permissions :: "'w host \<Rightarrow> 'w \<Rightarrow> Path \<Rightarrow> error + FileMode" where
  "Permissions h w p =
     (case filepath_Abs h w p of
        Inl err \<Rightarrow> Inl err
      | Inr absPath \<Rightarrow>
          (case os_Stat h w absPath of
             Inl err \<Rightarrow> Inl err
           | Inr stat \<Rightarrow> Inr (FileMode_Perm (Mode stat))))"

text \<open>The loop of \<open>Glob\<close> appends each match, converted to a \<open>Path\<close>, to \<open>matchPaths\<close>.\<close>

definition Glob :: "'w host \<Rightarrow> 'w \<Rightarrow> Path \<Rightarrow> string \<Rightarrow> error + Path list" where
  "Glob h w p pattern =
     (if \<not> IsDir h w p then Inl (Errorf (''Glob only works on directories: '' @ p))
      else case filepath_Abs h w p of
             Inl err \<Rightarrow> Inl err
           | Inr absPath \<Rightarrow>
               (let absPattern = filepath_Join [absPath, pattern]
                in case filepath_Glob h w absPattern of
                     Inl err \<Rightarrow> Inl err
                   | Inr matches \<Rightarrow>
                       Inr (foldl (\<lambda>matchPaths match. matchPaths @ [match]) [] matches)))"

text \<open>\<open>Resolve\<close> returns a pair, the \<open>Path\<close> and the error (\<open>None\<close> for \<^verbatim>\<open>nil\<close>).\<close>

definition Resolve :: "'w host \<Rightarrow> 'w \<Rightarrow> Path \<Rightarrow> Path \<times> error option" where
  "Resolve h w p =
     (case filepath_Abs h w p of
        Inl err \<Rightarrow> (p, Some err)
      | Inr absPath \<Rightarrow>
          (let resolvedPath = absPath
           in if \<not> Exists h w resolvedPath
              then (p, Some (Errorf (''Cannot resolve path that does not exist: '' @ resolvedPath)))
              else (resolvedPath, None)))"

definition Parent :: "Path \<Rightarrow> Path" where
  "Parent p = filepath_Dir p"

text \<open>\<open>Mkdir\<close> of \<^verbatim>\<open>path.go\<close>; the mode \<^verbatim>\<open>0755\<close> is \<open>0x1ED\<close>.\<close>

definition Mkdir :: "'w host \<Rightarrow> 'w \<Rightarrow> Path \<Rightarrow> error option \<times> 'w" where
  "Mkdir h w p =
     (if Exists h w p
      then (Some (Errorf (''Cannot make directory '' @ p @ '' because it already exists'')), w)
      else os_MkdirAll h w p 0x1ED)"

text \<open>
  The repository holds a second copy of the package (\<^verbatim>\<open>part_000\<close>), which differs from
  \<^verbatim>\<open>path.go\<close> in \<open>Mkdir\<close> only (and has no \<open>Open\<close>): it makes the one directory, with the
  permission bits of the parent and \<^verbatim>\<open>0700\<close> (\<open>0x1C0\<close>).
\<close>

definition Mkdir_part_000 :: "'w host \<Rightarrow> 'w \<Rightarrow> Path \<Rightarrow> error option \<times> 'w" where
  "Mkdir_part_000 h w p =
     (if Exists h w p
      then (Some (Errorf (''Cannot make directory '' @ p @ '' because it already exists'')), w)
      else
        let parent = Parent p
        in case Permissions h w parent of
             Inl err \<Rightarrow> (Some err, w)
           | Inr perms \<Rightarrow> (let perms = perms OR 0x1C0 in os_Mkdir h w p perms))"

text \<open>
  \<open>WriteBytes\<close>: the deferred \<^verbatim>\<open>outfile.Close()\<close> runs when the function returns, after
  the result is fixed, and its own result is dropped.
\<close>

definition WriteBytes :: "'w host \<Rightarrow> 'w \<Rightarrow> Path \<Rightarrow> byte list \<Rightarrow> error option \<times> 'w" where
  "WriteBytes h w p data =
     (case os_Create h w p of
        (Inl err, w1) \<Rightarrow> (Some err, w1)
      | (Inr outfile, w1) \<Rightarrow>
          (case File_Write h w1 outfile data of
             ((n, Some err), w2) \<Rightarrow> (Some err, snd (File_Close h w2 outfile))
           | ((n, None), w2) \<Rightarrow> (None, snd (File_Close h w2 outfile))))"

definition OpenWithPermissions ::
  "'w host \<Rightarrow> 'w \<Rightarrow> Path \<Rightarrow> string \<Rightarrow> FileMode \<Rightarrow> (error + File) \<times> 'w" where
  "OpenWithPermissions h w p mode perms =
     (if IsDir h w p
      then (Inl (Errorf (''Cannot open '' @ p @ '' because it is a directory.'')), w)
      else
        let flag = O_RDONLY;
            flag = (if strings_Contains mode ''r'' \<and> strings_Contains mode ''w'' then O_RDWR
                    else if strings_Contains mode ''r'' then O_RDONLY
                    else if strings_Contains mode ''w'' then O_WRONLY
                    else flag);
            flag = (if strings_Contains mode ''+'' then flag OR O_APPEND else flag);
            flag = (if \<not> Exists h w p then flag OR O_CREATE else flag)
        in os_OpenFile h w p flag perms)"

definition Open :: "'w host \<Rightarrow> 'w \<Rightarrow> Path \<Rightarrow> string \<Rightarrow> (error + File) \<times> 'w" where
  "Open h w p mode = OpenWithPermissions h w p mode 0x1ED"

section \<open>A small host, for evaluating the theorems\<close>

text \<open>
  A file system as a list of names, each a file or directory with its mode or a symbolic
  link whose target is missing; the working directory (\<open>None\<close> when it cannot be
  determined); the open files; and the error of the next write, if it is to fail.
\<close>

datatype node = Entry FileMode | DanglingLink

record world =
  cwd :: "string option"
  nodes :: "(string \<times> node) list"
  open_files :: "File list"
  write_error :: "error option"

text \<open>A pattern with \<^verbatim>\<open>*\<close> as its only metacharacter; the star does not cross a separator.\<close>

fun star_match :: "string \<Rightarrow> string \<Rightarrow> bool" where
  "star_match [] s = (s = [])"
| "star_match (c # cs) [] = (c = CHR ''*'' \<and> star_match cs [])"
| "star_match (c # cs) (x # xs) =
     (if c = CHR ''*'' then star_match cs (x # xs) \<or> (x \<noteq> CHR ''/'' \<and> star_match (c # cs) xs)
      else x = c \<and> star_match cs xs)"

definition ancestors :: "string \<Rightarrow> string list" where
  "ancestors name =
     map (\<lambda>i. take i name) (filter (\<lambda>i. 0 < i \<and> name ! i = CHR ''/'') [0..<length name])"

definition demo_host :: "world host" where
  "demo_host =
     \<lparr> os_Getwd = (\<lambda>w. case cwd w of None \<Rightarrow> Inl (Errno 2) | Some d \<Rightarrow> Inr d),
       os_Stat = (\<lambda>w name. case map_of (nodes w) name of
                     Some (Entry m) \<Rightarrow> Inr \<lparr>Mode = m\<rparr>
                   | _ \<Rightarrow> Inl (Errno 2)),
       filepath_Glob = (\<lambda>w pattern. Inr (filter (star_match pattern) (map fst (nodes w)))),
       os_MkdirAll = (\<lambda>w name perm.
                     (None, w\<lparr>nodes := nodes w @
                        map (\<lambda>d. (d, Entry (ModeDir OR perm)))
                          (filter (\<lambda>d. map_of (nodes w) d = None) (ancestors name @ [name]))\<rparr>)),
       os_Mkdir = (\<lambda>w name perm.
                     if map_of (nodes w) name = None
                     then (None, w\<lparr>nodes := nodes w @ [(name, Entry (ModeDir OR perm))]\<rparr>)
                     else (Some (Errno 17), w)),
       os_Create = (\<lambda>w name.
                     (Inr (length (open_files w) + 3),
                      w\<lparr>nodes := (name, Entry 0x1B6) # nodes w,
                        open_files := (length (open_files w) + 3) # open_files w\<rparr>)),
       os_OpenFile = (\<lambda>w name flag perm.
                     if map_of (nodes w) name = None \<and> flag AND O_CREATE = 0
                     then (Inl (Errno 2), w)
                     else (Inr (length (open_files w) + 3),
                           w\<lparr>open_files := (length (open_files w) + 3) # open_files w\<rparr>)),
       File_Write = (\<lambda>w f data. case write_error w of
                       Some e \<Rightarrow> ((0, Some e), w)
                     | None \<Rightarrow> ((length data, None), w)),
       File_Close = (\<lambda>w f. (None, w\<lparr>open_files := removeAll f (open_files w)\<rparr>)) \<rparr>"

definition demo_world :: world where
  "demo_world =
     \<lparr> cwd = Some ''/home'',
       nodes = [(''/'', Entry (ModeDir OR 0x1ED)),
                (''/etc'', Entry (ModeDir OR 0x1ED)),
                (''/etc/passwd'', Entry 0x1A4),
                (''/etc/a.conf'', Entry 0x1A4),
                (''/etc/b.conf'', DanglingLink),
                (''/home'', Entry (ModeDir OR 0x1ED))],
       open_files = [],
       write_error = None \<rparr>"

section \<open>Properties of the extension and of WithSuffix\<close>

lemma Ext_loop_skip:
  "\<forall>i. k \<le> i \<and> i < n \<longrightarrow> p ! i \<noteq> CHR ''.'' \<and> p ! i \<noteq> CHR ''/'' \<Longrightarrow> k \<le> n \<Longrightarrow>
     Ext_loop p n = Ext_loop p k"
proof (induction n)
  case 0
  then show ?case by simp
next
  case (Suc n)
  show ?case
  proof (cases "k = Suc n")
    case True
    then show ?thesis by simp
  next
    case False
    with Suc.prems have kn: "k \<le> n" by simp
    from Suc.prems kn have "p ! n \<noteq> CHR ''.'' \<and> p ! n \<noteq> CHR ''/''" by simp
    moreover have "Ext_loop p n = Ext_loop p k"
      using Suc.IH Suc.prems kn by simp
    ultimately show ?thesis by (simp add: os_IsPathSeparator_def)
  qed
qed

lemma Ext_loop_tail:
  assumes "CHR ''.'' \<notin> set e" "CHR ''/'' \<notin> set e"
  shows "Ext_loop (q @ c # e) (length (q @ c # e)) = Ext_loop (q @ c # e) (Suc (length q))"
proof (rule Ext_loop_skip)
  show "\<forall>i. Suc (length q) \<le> i \<and> i < length (q @ c # e) \<longrightarrow>
          (q @ c # e) ! i \<noteq> CHR ''.'' \<and> (q @ c # e) ! i \<noteq> CHR ''/''"
  proof (intro allI impI)
    fix i assume i: "Suc (length q) \<le> i \<and> i < length (q @ c # e)"
    then have "(q @ c # e) ! i = e ! (i - Suc (length q))"
      by (simp add: nth_append nth_Cons')
    moreover from i have "e ! (i - Suc (length q)) \<in> set e"
      by (intro nth_mem) auto
    ultimately show "(q @ c # e) ! i \<noteq> CHR ''.'' \<and> (q @ c # e) ! i \<noteq> CHR ''/''"
      using assms by metis
  qed
  show "Suc (length q) \<le> length (q @ c # e)" by simp
qed

lemma Ext_dot:
  assumes "CHR ''.'' \<notin> set e" "CHR ''/'' \<notin> set e"
  shows "filepath_Ext (q @ CHR ''.'' # e) = CHR ''.'' # e"
  unfolding filepath_Ext_def Ext_loop_tail [OF assms]
  by (simp add: os_IsPathSeparator_def)

lemma Ext_sep:
  assumes "CHR ''.'' \<notin> set e" "CHR ''/'' \<notin> set e"
  shows "filepath_Ext (q @ CHR ''/'' # e) = []"
  unfolding filepath_Ext_def Ext_loop_tail [OF assms]
  by (simp add: os_IsPathSeparator_def)

lemma Ext_plain:
  assumes "CHR ''.'' \<notin> set e" "CHR ''/'' \<notin> set e"
  shows "filepath_Ext e = []"
proof -
  have "Ext_loop e (length e) = Ext_loop e 0"
  proof (rule Ext_loop_skip)
    show "\<forall>i. 0 \<le> i \<and> i < length e \<longrightarrow> e ! i \<noteq> CHR ''.'' \<and> e ! i \<noteq> CHR ''/''"
      using assms nth_mem by metis
  qed simp
  then show ?thesis by (simp add: filepath_Ext_def)
qed

lemma length_Ext_loop: "length (Ext_loop p n) \<le> length p"
  by (induction n) auto

lemma length_Ext: "length (filepath_Ext p) \<le> length p"
  by (simp add: filepath_Ext_def length_Ext_loop)

lemma last_dot_split:
  assumes "CHR ''.'' \<in> set f"
  shows "\<exists>f1 f2. f = f1 @ CHR ''.'' # f2 \<and> CHR ''.'' \<notin> set f2"
  using assms by (rule split_list_last)

lemma Ext_dir:
  assumes "CHR ''/'' \<notin> set f"
  shows "filepath_Ext (d @ CHR ''/'' # f) = filepath_Ext f"
proof (cases "CHR ''.'' \<in> set f")
  case True
  then obtain f1 f2 where f: "f = f1 @ CHR ''.'' # f2" and f2: "CHR ''.'' \<notin> set f2"
    using last_dot_split by blast
  from assms f have s2: "CHR ''/'' \<notin> set f2" by simp
  have "filepath_Ext ((d @ CHR ''/'' # f1) @ CHR ''.'' # f2) = CHR ''.'' # f2"
    using f2 s2 by (rule Ext_dot)
  moreover have "filepath_Ext (f1 @ CHR ''.'' # f2) = CHR ''.'' # f2"
    using f2 s2 by (rule Ext_dot)
  ultimately show ?thesis using f by simp
next
  case False
  then show ?thesis using assms by (simp add: Ext_sep Ext_plain)
qed

lemma final_segment_split:
  "p = final_segment p \<or> (\<exists>d. p = d @ CHR ''/'' # final_segment p)"
proof -
  let ?P = "\<lambda>c. c \<noteq> CHR ''/''"
  have p: "p = rev (dropWhile ?P (rev p)) @ final_segment p"
    unfolding final_segment_def
    by (metis rev_append rev_rev_ident takeWhile_dropWhile_id)
  show ?thesis
  proof (cases "dropWhile ?P (rev p)")
    case Nil
    with p show ?thesis by simp
  next
    case (Cons c cs)
    then have "c = CHR ''/''"
      using hd_dropWhile [of ?P "rev p"] by auto
    with Cons p have "p = rev cs @ CHR ''/'' # final_segment p" by simp
    then show ?thesis by blast
  qed
qed

lemma final_segment_no_sep: "CHR ''/'' \<notin> set (final_segment p)"
  unfolding final_segment_def using set_takeWhileD by fastforce

lemma Ext_no_dot:
  assumes "CHR ''.'' \<notin> set (final_segment p)"
  shows "filepath_Ext p = []"
proof -
  have e: "filepath_Ext (final_segment p) = []"
    using assms final_segment_no_sep by (rule Ext_plain)
  from final_segment_split [of p] show ?thesis
  proof
    assume "p = final_segment p"
    with e show ?thesis by simp
  next
    assume "\<exists>d. p = d @ CHR ''/'' # final_segment p"
    then obtain d where "p = d @ CHR ''/'' # final_segment p" ..
    then have "filepath_Ext p = filepath_Ext (final_segment p)"
      using Ext_dir [where f = "final_segment p" and d = d] final_segment_no_sep by simp
    with e show ?thesis by simp
  qed
qed

lemma WithSuffix_no_ext:
  assumes "filepath_Ext p = []"
  shows "WithSuffix p s = Inr (if strings_TrimSpace s = [] then p else p @ ''.'' @ strings_TrimSpace s)"
  using assms by (simp add: WithSuffix_def Let_def)

lemma WithSuffix_ext:
  assumes "CHR ''.'' \<notin> set old" "CHR ''/'' \<notin> set old"
  shows "WithSuffix (q @ ''.'' @ old) s =
           Inr (if strings_TrimSpace s = [] then q else q @ ''.'' @ strings_TrimSpace s)"
proof -
  have "filepath_Ext (q @ ''.'' @ old) = CHR ''.'' # old"
    using Ext_dot [OF assms, of q] by simp
  moreover have "nat (1 + int (length q)) = Suc (length q)" by simp
  ultimately show ?thesis
    by (simp add: WithSuffix_def Let_def go_slice_def)
qed


lemma Ext_loop_suffix: "n \<le> length p \<Longrightarrow> \<exists>q. p = q @ Ext_loop p n"
proof (induction n)
  case 0
  then show ?case by simp
next
  case (Suc n)
  have "p = take n p @ drop n p" by simp
  then have "\<exists>q. p = q @ drop n p" by blast
  with Suc show ?case by auto
qed

lemma Ext_suffix: "\<exists>q. p = q @ filepath_Ext p"
  by (simp add: filepath_Ext_def Ext_loop_suffix)

lemma path_cases:
  "CHR ''.'' \<notin> set (final_segment p) \<or>
   (\<exists>q old. p = q @ ''.'' @ old \<and> CHR ''.'' \<notin> set old \<and> CHR ''/'' \<notin> set old)"
proof (cases "CHR ''.'' \<in> set (final_segment p)")
  case False
  then show ?thesis by simp
next
  case True
  then obtain f1 f2 where f: "final_segment p = f1 @ CHR ''.'' # f2" and f2: "CHR ''.'' \<notin> set f2"
    using last_dot_split by blast
  have "CHR ''/'' \<notin> set (f1 @ CHR ''.'' # f2)"
    using final_segment_no_sep [of p] f by simp
  then have s2: "CHR ''/'' \<notin> set f2" by simp
  from final_segment_split [of p] obtain d where "p = d @ f1 @ CHR ''.'' # f2"
    using f by (metis append_Cons append_Nil append_assoc)
  then have "p = (d @ f1) @ ''.'' @ f2" by simp
  with f2 s2 show ?thesis by blast
qed

lemma WithSuffix_total:
  "WithSuffix p s =
     Inr (if filepath_Ext p = []
          then (if strings_TrimSpace s = [] then p else p @ ''.'' @ strings_TrimSpace s)
          else if strings_TrimSpace s = [] then take (length p - length (filepath_Ext p)) p
          else take (length p - (length (filepath_Ext p) - 1)) p @ strings_TrimSpace s)"
proof -
  have le: "length (filepath_Ext p) \<le> length p" by (rule length_Ext)
  have a: "nat (int (length p) - int (length (filepath_Ext p))) = length p - length (filepath_Ext p)"
    by simp
  have b: "nat (int (length p) - (int (length (filepath_Ext p)) - 1))
             = length p - (length (filepath_Ext p) - 1)"
    if "filepath_Ext p \<noteq> []"
  proof -
    from that have "0 < length (filepath_Ext p)" by simp
    then show ?thesis by linarith
  qed
  show ?thesis
    using le a b by (simp add: WithSuffix_def Let_def go_slice_def)
qed

lemma WithSuffix_dir:
  assumes "CHR ''/'' \<notin> set f"
  shows "WithSuffix (d @ ''/'' @ f) s = map_sum id (\<lambda>r. d @ ''/'' @ r) (WithSuffix f s)"
proof -
  have e: "filepath_Ext (d @ ''/'' @ f) = filepath_Ext f"
    using Ext_dir [OF assms, of d] by simp
  have le: "length (filepath_Ext f) \<le> length f" by (rule length_Ext)
  show ?thesis
    unfolding WithSuffix_total e using le by (simp add: Suc_diff_le)
qed

text \<open>
  C1. \<open>WithSuffix\<close> never panics and follows the policy table on the trimmed suffix:
  a path whose final segment has no dot is returned unchanged for an empty suffix and
  gets a dot and the suffix appended otherwise; a path \<open>q.old\<close>, where \<open>old\<close> has neither dot
  nor separator, becomes \<open>q.suffix\<close>, or \<open>q\<close> for an empty suffix; every path is of one of
  the two kinds; and the directory part in front of the final segment, dots included, is
  carried over untouched.
\<close>

theorem WithSuffix_policy:
  "(CHR ''.'' \<notin> set (final_segment p) \<and> strings_TrimSpace s = [] \<longrightarrow> WithSuffix p s = Inr p) \<and>
   (CHR ''.'' \<notin> set (final_segment p) \<and> strings_TrimSpace s \<noteq> [] \<longrightarrow>
      WithSuffix p s = Inr (p @ ''.'' @ strings_TrimSpace s)) \<and>
   (\<forall>q old. p = q @ ''.'' @ old \<and> CHR ''.'' \<notin> set old \<and> CHR ''/'' \<notin> set old \<and>
      strings_TrimSpace s \<noteq> [] \<longrightarrow> WithSuffix p s = Inr (q @ ''.'' @ strings_TrimSpace s)) \<and>
   (\<forall>q old. p = q @ ''.'' @ old \<and> CHR ''.'' \<notin> set old \<and> CHR ''/'' \<notin> set old \<and>
      strings_TrimSpace s = [] \<longrightarrow> WithSuffix p s = Inr q) \<and>
   (CHR ''.'' \<in> set (final_segment p) \<longrightarrow>
      (\<exists>q old. p = q @ ''.'' @ old \<and> CHR ''.'' \<notin> set old \<and> CHR ''/'' \<notin> set old)) \<and>
   (\<forall>d f. CHR ''/'' \<notin> set f \<longrightarrow>
      WithSuffix (d @ ''/'' @ f) s = map_sum id (\<lambda>r. d @ ''/'' @ r) (WithSuffix f s))"
proof (intro conjI allI impI)
  assume "CHR ''.'' \<notin> set (final_segment p) \<and> strings_TrimSpace s = []"
  then show "WithSuffix p s = Inr p"
    by (simp add: WithSuffix_no_ext Ext_no_dot)
next
  assume "CHR ''.'' \<notin> set (final_segment p) \<and> strings_TrimSpace s \<noteq> []"
  then show "WithSuffix p s = Inr (p @ ''.'' @ strings_TrimSpace s)"
    by (simp add: WithSuffix_no_ext Ext_no_dot)
next
  fix q old
  assume "p = q @ ''.'' @ old \<and> CHR ''.'' \<notin> set old \<and> CHR ''/'' \<notin> set old \<and>
          strings_TrimSpace s \<noteq> []"
  then show "WithSuffix p s = Inr (q @ ''.'' @ strings_TrimSpace s)"
    using WithSuffix_ext [of old q s] by simp
next
  fix q old
  assume "p = q @ ''.'' @ old \<and> CHR ''.'' \<notin> set old \<and> CHR ''/'' \<notin> set old \<and>
          strings_TrimSpace s = []"
  then show "WithSuffix p s = Inr q"
    using WithSuffix_ext [of old q s] by simp
next
  assume "CHR ''.'' \<in> set (final_segment p)"
  then show "\<exists>q old. p = q @ ''.'' @ old \<and> CHR ''.'' \<notin> set old \<and> CHR ''/'' \<notin> set old"
    using path_cases [of p] by blast
next
  fix d f
  assume "CHR ''/'' \<notin> set f"
  then show "WithSuffix (d @ ''/'' @ f) s = map_sum id (\<lambda>r. d @ ''/'' @ r) (WithSuffix f s)"
    by (rule WithSuffix_dir)
qed


theorem WithSuffix_policy_witness:
  "WithSuffix ''foo'' '' '' = Inr ''foo'' \<and>
   WithSuffix ''foo'' '' baz'' = Inr ''foo.baz'' \<and>
   WithSuffix ''/foo/bar.a/baz.zip'' '' baz'' = Inr ''/foo/bar.a/baz.baz'' \<and>
   WithSuffix ''/foo/bar.a/baz.zip'' '' '' = Inr ''/foo/bar.a/baz'' \<and>
   WithSuffix ''/foo/bar.a/baz'' '' baz'' = Inr ''/foo/bar.a/baz.baz''"
proof -
  have t1: "strings_TrimSpace '' '' = []" by code_simp
  have t2: "strings_TrimSpace '' baz'' = ''baz''" by code_simp
  have s1: "final_segment ''foo'' = ''foo''" by code_simp
  have a: "WithSuffix ''foo'' '' '' = Inr ''foo''"
    using WithSuffix_policy [of "''foo''" "'' ''"] t1 s1 by simp
  have b: "WithSuffix ''foo'' '' baz'' = Inr ''foo.baz''"
    using WithSuffix_policy [of "''foo''" "'' baz''"] t2 s1 by simp
  have "\<forall>q old. ''/foo/bar.a/baz.zip'' = q @ ''.'' @ old \<and> CHR ''.'' \<notin> set old \<and>
          CHR ''/'' \<notin> set old \<and> strings_TrimSpace '' baz'' \<noteq> [] \<longrightarrow>
          WithSuffix ''/foo/bar.a/baz.zip'' '' baz'' = Inr (q @ ''.'' @ strings_TrimSpace '' baz'')"
    using WithSuffix_policy [of "''/foo/bar.a/baz.zip''" "'' baz''"] by blast
  from this [rule_format, of "''/foo/bar.a/baz''" "''zip''"]
  have c: "WithSuffix ''/foo/bar.a/baz.zip'' '' baz'' = Inr ''/foo/bar.a/baz.baz''"
    using t2 by simp
  have "\<forall>q old. ''/foo/bar.a/baz.zip'' = q @ ''.'' @ old \<and> CHR ''.'' \<notin> set old \<and>
          CHR ''/'' \<notin> set old \<and> strings_TrimSpace '' '' = [] \<longrightarrow>
          WithSuffix ''/foo/bar.a/baz.zip'' '' '' = Inr q"
    using WithSuffix_policy [of "''/foo/bar.a/baz.zip''" "'' ''"] by blast
  from this [rule_format, of "''/foo/bar.a/baz''" "''zip''"]
  have d: "WithSuffix ''/foo/bar.a/baz.zip'' '' '' = Inr ''/foo/bar.a/baz''"
    using t1 by simp
  have "\<forall>d f. CHR ''/'' \<notin> set f \<longrightarrow>
          WithSuffix (d @ ''/'' @ f) '' baz'' = map_sum id (\<lambda>r. d @ ''/'' @ r) (WithSuffix f '' baz'')"
    using WithSuffix_policy [of "''x''" "'' baz''"] by blast
  from this [rule_format, of "''baz''" "''/foo/bar.a''"]
  have e: "WithSuffix ''/foo/bar.a/baz'' '' baz'' = Inr ''/foo/bar.a/baz.baz''"
    using WithSuffix_policy [of "''baz''" "'' baz''"] t2 by (simp add: final_segment_def)
  from a b c d e show ?thesis by simp
qed


lemma WithSuffix_shape:
  assumes "strings_TrimSpace s \<noteq> []"
  shows "\<exists>q. WithSuffix p s = Inr (q @ ''.'' @ strings_TrimSpace s)"
  using path_cases [of p]
proof
  assume "CHR ''.'' \<notin> set (final_segment p)"
  then have "WithSuffix p s = Inr (p @ ''.'' @ strings_TrimSpace s)"
    using assms by (simp add: WithSuffix_no_ext Ext_no_dot)
  then show ?thesis by blast
next
  assume "\<exists>q old. p = q @ ''.'' @ old \<and> CHR ''.'' \<notin> set old \<and> CHR ''/'' \<notin> set old"
  then obtain q old where "p = q @ ''.'' @ old" "CHR ''.'' \<notin> set old" "CHR ''/'' \<notin> set old"
    by blast
  then have "WithSuffix p s = Inr (q @ ''.'' @ strings_TrimSpace s)"
    using assms WithSuffix_ext [of old q s] by simp
  then show ?thesis by blast
qed

lemma WithSuffix_again:
  assumes t: "strings_TrimSpace s \<noteq> []"
  shows "(WithSuffix (q @ ''.'' @ strings_TrimSpace s) s = Inr (q @ ''.'' @ strings_TrimSpace s)) =
         (CHR ''.'' \<notin> set (strings_TrimSpace s) \<and> CHR ''/'' \<notin> set (strings_TrimSpace s))"
proof
  assume "CHR ''.'' \<notin> set (strings_TrimSpace s) \<and> CHR ''/'' \<notin> set (strings_TrimSpace s)"
  then show "WithSuffix (q @ ''.'' @ strings_TrimSpace s) s = Inr (q @ ''.'' @ strings_TrimSpace s)"
    using t WithSuffix_ext [of "strings_TrimSpace s" q s] by simp
next
  let ?t = "strings_TrimSpace s"
  let ?r = "q @ ''.'' @ ?t"
  assume fp: "WithSuffix ?r s = Inr ?r"
  from path_cases [of ?r] show "CHR ''.'' \<notin> set ?t \<and> CHR ''/'' \<notin> set ?t"
  proof
    assume "CHR ''.'' \<notin> set (final_segment ?r)"
    then have "WithSuffix ?r s = Inr (?r @ ''.'' @ ?t)"
      using t by (simp add: WithSuffix_no_ext Ext_no_dot)
    with fp show ?thesis by simp
  next
    assume "\<exists>q' old. ?r = q' @ ''.'' @ old \<and> CHR ''.'' \<notin> set old \<and> CHR ''/'' \<notin> set old"
    then obtain q' old where r: "?r = q' @ ''.'' @ old"
      and old: "CHR ''.'' \<notin> set old" "CHR ''/'' \<notin> set old"
      by blast
    have "WithSuffix (q' @ ''.'' @ old) s = Inr (q' @ ''.'' @ ?t)"
      using t WithSuffix_ext [OF old, of q' s] by simp
    with fp r have "q' @ ''.'' @ ?t = q' @ ''.'' @ old" by simp
    then have "?t = old" by simp
    with old show ?thesis by simp
  qed
qed

text \<open>
  C6 (as amended). For a suffix that is not empty after trimming, applying \<open>WithSuffix\<close>
  a second time with the same suffix changes nothing exactly when the trimmed suffix
  holds neither a dot nor a separator.
\<close>

theorem WithSuffix_idempotent:
  assumes "strings_TrimSpace s \<noteq> []"
  shows "(\<exists>r. WithSuffix p s = Inr r \<and> WithSuffix r s = Inr r) =
         (CHR ''.'' \<notin> set (strings_TrimSpace s) \<and> CHR ''/'' \<notin> set (strings_TrimSpace s))"
proof -
  from WithSuffix_shape [OF assms, of p]
  obtain q where q: "WithSuffix p s = Inr (q @ ''.'' @ strings_TrimSpace s)" ..
  then have "(\<exists>r. WithSuffix p s = Inr r \<and> WithSuffix r s = Inr r) =
             (WithSuffix (q @ ''.'' @ strings_TrimSpace s) s = Inr (q @ ''.'' @ strings_TrimSpace s))"
    by auto
  then show ?thesis
    using WithSuffix_again [OF assms, of q] by simp
qed

theorem WithSuffix_idempotent_witness:
  "strings_TrimSpace '' baz'' \<noteq> [] \<and>
   (\<exists>r. WithSuffix ''foo.bar'' '' baz'' = Inr r \<and> WithSuffix r '' baz'' = Inr r)"
proof -
  have t: "strings_TrimSpace '' baz'' = ''baz''" by code_simp
  then have ne: "strings_TrimSpace '' baz'' \<noteq> []" by simp
  from WithSuffix_idempotent [OF ne, of "''foo.bar''"] t ne show ?thesis by simp
qed

text \<open>
  C6 as stated fails for a suffix with a dot in it: the second application keeps the
  \<^verbatim>\<open>tar\<close> of the first and puts the suffix after it.
\<close>

theorem WithSuffix_twice_counterexample:
  "WithSuffix ''foo'' ''tar.gz'' = Inr ''foo.tar.gz'' \<and>
   WithSuffix ''foo.tar.gz'' ''tar.gz'' = Inr ''foo.tar.tar.gz'' \<and>
   WithSuffix ''foo.tar.gz'' ''tar.gz'' \<noteq> WithSuffix ''foo'' ''tar.gz''"
  by code_simp

section \<open>Joining paths\<close>

lemma is_dot_element_sep:
  "is_dot_element (c # cs @ CHR ''/'' # zs) = is_dot_element (c # cs)"
  by (cases cs) (simp_all add: is_dot_element_def os_IsPathSeparator_def)

lemma is_dotdot_element_sep:
  "is_dotdot_element (c # cs @ CHR ''/'' # zs) = is_dotdot_element (c # cs)"
proof (cases cs)
  case Nil
  then show ?thesis by (simp add: is_dotdot_element_def)
next
  case (Cons d ds)
  then show ?thesis
    by (cases ds) (simp_all add: is_dotdot_element_def os_IsPathSeparator_def)
qed

lemma is_dotdot_element_tl:
  "is_dotdot_element (c # cs) \<Longrightarrow> tl (cs @ zs) = tl cs @ zs"
  by (cases cs) (simp_all add: is_dotdot_element_def)

lemma not_sep_slash: "\<not> (\<lambda>x. \<not> os_IsPathSeparator x) CHR ''/''"
  by (simp add: os_IsPathSeparator_def)

lemma Clean_loop_double_sep:
  "Clean_loop r (xs @ CHR ''/'' # CHR ''/'' # ys) out dd = Clean_loop r (xs @ CHR ''/'' # ys) out dd"
proof (induction xs arbitrary: out dd r rule: length_induct)
  case (1 xs)
  have IH: "Clean_loop r' (zs @ CHR ''/'' # CHR ''/'' # ys) out' dd'
              = Clean_loop r' (zs @ CHR ''/'' # ys) out' dd'"
    if "length zs < length xs" for zs out' dd' r'
    using 1 that by blast
  show ?case
  proof (cases xs)
    case Nil
    then show ?thesis by (simp add: os_IsPathSeparator_def)
  next
    case (Cons c cs)
    let ?P = "\<lambda>x. \<not> os_IsPathSeparator x"
    have l1: "length cs < length xs" using Cons by simp
    have l2: "length (tl cs) < length xs" using Cons by simp
    have l3: "length (dropWhile ?P cs) < length xs"
      using Cons length_dropWhile_le [of ?P cs] by simp
    have d: "dropWhile ?P (cs @ CHR ''/'' # zs) = dropWhile ?P cs @ CHR ''/'' # zs" for zs
      using not_sep_slash by (rule dropWhile_append3)
    have t: "takeWhile ?P (cs @ CHR ''/'' # zs) = takeWhile ?P cs" for zs
      using not_sep_slash by (rule takeWhile_tail)
    show ?thesis
    proof (cases "is_dotdot_element (c # cs)")
      case True
      then have tl: "tl (cs @ zs) = tl cs @ zs" for zs
        by (rule is_dotdot_element_tl)
      show ?thesis
        unfolding Cons
        by (simp add: is_dot_element_sep is_dotdot_element_sep Let_def tl d t
            IH [OF l1] IH [OF l2] IH [OF l3])
    next
      case False
      then show ?thesis
        unfolding Cons
        by (simp add: is_dot_element_sep is_dotdot_element_sep Let_def d t
            IH [OF l1] IH [OF l3])
    qed
  qed
qed

lemma Clean_not_empty: "filepath_Clean x \<noteq> []"
  by (simp add: filepath_Clean_def Let_def)

lemma Clean_double_sep:
  assumes "p \<noteq> []"
  shows "filepath_Clean (p @ CHR ''/'' # CHR ''/'' # q) = filepath_Clean (p @ CHR ''/'' # q)"
proof -
  from assms obtain c cs where p: "p = c # cs" by (cases p) auto
  have a: "Clean_loop r (c # cs @ CHR ''/'' # CHR ''/'' # q) out dd
             = Clean_loop r (c # cs @ CHR ''/'' # q) out dd" for r out dd
    using Clean_loop_double_sep [of r "c # cs" q out dd] by (simp del: Clean_loop.simps)
  have b: "Clean_loop r (cs @ CHR ''/'' # CHR ''/'' # q) out dd
             = Clean_loop r (cs @ CHR ''/'' # q) out dd" for r out dd
    by (rule Clean_loop_double_sep)
  show ?thesis
    unfolding p filepath_Clean_def
    by (simp add: Let_def a b del: Clean_loop.simps)
qed

lemma Join_two:
  "p \<noteq> [] \<Longrightarrow> filepath_Join [p, q] = filepath_Clean (p @ ''/'' @ q)"
  by (simp add: filepath_Join_def)

lemma Join_not_empty: "p \<noteq> [] \<Longrightarrow> filepath_Join [p, q] \<noteq> []"
  by (simp add: Join_two Clean_not_empty)

lemma JoinPath_Cons: "JoinPath p (q # qs) = JoinPath (filepath_Join [p, q]) qs"
  by (simp add: JoinPath_def)

lemma JoinPath_rooted_components:
  "p \<noteq> [] \<Longrightarrow> JoinPath p (map (\<lambda>q. CHR ''/'' # q) qs) = JoinPath p qs"
proof (induction qs arbitrary: p)
  case Nil
  then show ?case by simp
next
  case (Cons q qs)
  have "filepath_Join [p, CHR ''/'' # q] = filepath_Join [p, q]"
    using Cons.prems Clean_double_sep [of p q] by (simp add: Join_two)
  moreover have "filepath_Join [p, q] \<noteq> []"
    using Cons.prems by (rule Join_not_empty)
  ultimately show ?case
    using Cons.IH [of "filepath_Join [p, q]"] by (simp add: JoinPath_Cons)
qed

lemma plain_name_elements:
  assumes "plain_name (c # cs)"
  shows "\<not> os_IsPathSeparator c" "\<not> is_dot_element (c # cs)" "\<not> is_dotdot_element (c # cs)"
proof -
  show "\<not> os_IsPathSeparator c"
    using assms by (auto simp: plain_name_def os_IsPathSeparator_def)
  show "\<not> is_dot_element (c # cs)"
    using assms
    by (cases cs) (auto simp: plain_name_def is_dot_element_def os_IsPathSeparator_def)
  show "\<not> is_dotdot_element (c # cs)"
  proof (cases cs)
    case Nil
    then show ?thesis by (simp add: is_dotdot_element_def)
  next
    case (Cons d ds)
    with assms show ?thesis
      by (cases ds) (auto simp: plain_name_def is_dotdot_element_def os_IsPathSeparator_def)
  qed
qed

lemma plain_name_all_not_sep:
  "plain_name n \<Longrightarrow> \<forall>x\<in>set n. \<not> os_IsPathSeparator x"
  by (auto simp: plain_name_def os_IsPathSeparator_def)

lemma Clean_loop_plain_last:
  assumes "plain_name n"
  shows "Clean_loop r n out dd =
           (if r \<and> length out \<noteq> 1 \<or> \<not> r \<and> length out \<noteq> 0 then out @ ''/'' else out) @ n"
proof -
  from assms obtain c cs where n: "n = c # cs" by (cases n) (auto simp: plain_name_def)
  have "\<forall>x\<in>set cs. \<not> os_IsPathSeparator x"
    using plain_name_all_not_sep [OF assms] n by simp
  then have t: "takeWhile (\<lambda>x. \<not> os_IsPathSeparator x) cs = cs"
    and d: "dropWhile (\<lambda>x. \<not> os_IsPathSeparator x) cs = []"
    by simp_all
  show ?thesis
    using plain_name_elements [OF assms [unfolded n]]
    unfolding n by (simp add: Let_def t d)
qed

lemma Clean_loop_plain_more:
  assumes "plain_name n"
  shows "Clean_loop r (n @ CHR ''/'' # rest) out dd =
           Clean_loop r rest
             ((if r \<and> length out \<noteq> 1 \<or> \<not> r \<and> length out \<noteq> 0 then out @ ''/'' else out) @ n) dd"
proof -
  let ?P = "\<lambda>x. \<not> os_IsPathSeparator x"
  from assms obtain c cs where n: "n = c # cs" by (cases n) (auto simp: plain_name_def)
  have all: "\<forall>x\<in>set cs. ?P x"
    using plain_name_all_not_sep [OF assms] n by simp
  have t: "takeWhile ?P (cs @ CHR ''/'' # rest) = cs"
    using all not_sep_slash by (simp add: takeWhile_tail)
  have d: "dropWhile ?P (cs @ CHR ''/'' # rest) = CHR ''/'' # rest"
    using all not_sep_slash by (simp add: dropWhile_append3)
  have s: "os_IsPathSeparator CHR ''/''" by (simp add: os_IsPathSeparator_def)
  show ?thesis
    using plain_name_elements [OF assms [unfolded n]]
    unfolding n
    by (simp add: Let_def t d s is_dot_element_sep is_dotdot_element_sep)
qed

lemma Clean_loop_plain_names:
  assumes "ns \<noteq> []" and "\<forall>n\<in>set ns. plain_name n" and "r \<longrightarrow> out \<noteq> []"
  shows "Clean_loop r (strings_Join ns ''/'') out dd =
           (if r \<and> length out \<noteq> 1 \<or> \<not> r \<and> length out \<noteq> 0 then out @ ''/'' else out)
             @ strings_Join ns ''/''"
  using assms
proof (induction ns "''/''" arbitrary: out rule: strings_Join.induct)
  case 1
  then show ?case by simp
next
  case (2 e)
  then have "plain_name e" by simp
  from Clean_loop_plain_last [OF this, of r out dd] show ?case by simp
next
  case (3 e v va)
  then have e: "plain_name e" by simp
  let ?out = "(if r \<and> length out \<noteq> 1 \<or> \<not> r \<and> length out \<noteq> 0 then out @ ''/'' else out) @ e"
  have ne: "e \<noteq> []" using e by (simp add: plain_name_def)
  then have le: "0 < length e" by simp
  have o1: "r \<longrightarrow> ?out \<noteq> []" using ne by simp
  have o2: "r \<and> length ?out \<noteq> 1 \<or> \<not> r \<and> length ?out \<noteq> 0"
    using le "3.prems"(3) by (cases out) auto
  have "Clean_loop r (strings_Join (e # v # va) ''/'') out dd
          = Clean_loop r (strings_Join (v # va) ''/'') ?out dd"
    using Clean_loop_plain_more [OF e, of r "strings_Join (v # va) ''/''" out dd] by simp
  also have "\<dots> = (?out @ ''/'') @ strings_Join (v # va) ''/''"
  proof -
    have "Clean_loop r (strings_Join (v # va) ''/'') ?out dd =
            (if r \<and> length ?out \<noteq> 1 \<or> \<not> r \<and> length ?out \<noteq> 0 then ?out @ ''/'' else ?out)
              @ strings_Join (v # va) ''/''"
      using "3.prems"(2) o1 by (intro "3.hyps") simp_all
    with o2 show ?thesis by presburger
  qed
  finally show ?case by simp
qed

lemma strings_Join_not_empty:
  "ns \<noteq> [] \<Longrightarrow> \<forall>n\<in>set ns. plain_name n \<Longrightarrow> strings_Join ns sep \<noteq> []"
  by (induction ns sep rule: strings_Join.induct) (auto simp: plain_name_def)

lemma strings_Join_not_rooted:
  "ns \<noteq> [] \<Longrightarrow> \<forall>n\<in>set ns. plain_name n \<Longrightarrow> \<not> os_IsPathSeparator (hd (strings_Join ns sep))"
  by (induction ns sep rule: strings_Join.induct)
     (auto simp: plain_name_def os_IsPathSeparator_def neq_Nil_conv)

lemma Clean_plain_relative:
  assumes "ns \<noteq> []" and "\<forall>n\<in>set ns. plain_name n"
  shows "filepath_Clean (strings_Join ns ''/'') = strings_Join ns ''/''"
  using strings_Join_not_empty [OF assms] strings_Join_not_rooted [OF assms]
    Clean_loop_plain_names [OF assms, of False "[]" 0]
  by (simp add: filepath_Clean_def Let_def)

lemma Clean_plain_rooted:
  assumes "ns \<noteq> []" and "\<forall>n\<in>set ns. plain_name n"
  shows "filepath_Clean (CHR ''/'' # strings_Join ns ''/'') = CHR ''/'' # strings_Join ns ''/''"
  using Clean_loop_plain_names [OF assms, of True "''/''" 1]
  by (simp add: filepath_Clean_def Let_def os_IsPathSeparator_def)

lemma strings_Join_snoc:
  "ns \<noteq> [] \<Longrightarrow> strings_Join (ns @ [q]) sep = strings_Join ns sep @ sep @ q"
  by (induction ns sep rule: strings_Join.induct) auto

lemma JoinPath_plain:
  assumes "ns \<noteq> []" and "\<forall>n\<in>set ns. plain_name n" and "\<forall>q\<in>set qs. plain_name q"
  shows "JoinPath (strings_Join ns ''/'') qs = strings_Join (ns @ qs) ''/''"
    and "JoinPath (CHR ''/'' # strings_Join ns ''/'') qs = CHR ''/'' # strings_Join (ns @ qs) ''/''"
  using assms
proof (induction qs arbitrary: ns)
  case Nil
  {
    case 1 then show ?case by (simp add: JoinPath_def)
  next
    case 2 then show ?case by (simp add: JoinPath_def)
  }
next
  case (Cons q qs)
  {
    case 1
    then have ns': "ns @ [q] \<noteq> []" "\<forall>n\<in>set (ns @ [q]). plain_name n" "\<forall>q\<in>set qs. plain_name q"
      by auto
    have "filepath_Join [strings_Join ns ''/'', q] = strings_Join (ns @ [q]) ''/''"
      using strings_Join_not_empty [OF 1(1,2)] Clean_plain_relative [OF ns'(1,2)]
        strings_Join_snoc [OF 1(1), of q "''/''"]
      by (simp add: Join_two)
    then show ?case
      using Cons.IH(1) [OF ns'] by (simp add: JoinPath_Cons)
  next
    case 2
    then have ns': "ns @ [q] \<noteq> []" "\<forall>n\<in>set (ns @ [q]). plain_name n" "\<forall>q\<in>set qs. plain_name q"
      by auto
    have "filepath_Join [CHR ''/'' # strings_Join ns ''/'', q]
            = CHR ''/'' # strings_Join (ns @ [q]) ''/''"
      using Clean_plain_rooted [OF ns'(1,2)] strings_Join_snoc [OF 2(1), of q "''/''"]
      by (simp add: Join_two)
    then show ?case
      using Cons.IH(2) [OF ns'] by (simp add: JoinPath_Cons)
  }
qed

lemma JoinPath_not_empty: "p \<noteq> [] \<Longrightarrow> JoinPath p qs \<noteq> []"
proof (induction qs arbitrary: p)
  case Nil
  then show ?case by (simp add: JoinPath_def)
next
  case (Cons q qs)
  then show ?case by (simp add: JoinPath_Cons Join_not_empty)
qed

lemma JoinPath_snoc:
  assumes "p \<noteq> []"
  shows "JoinPath p (qs @ [q]) = filepath_Clean (JoinPath p qs @ ''/'' @ q)"
proof -
  have "JoinPath p (qs @ [q]) = filepath_Join [JoinPath p qs, q]"
    by (simp add: JoinPath_def)
  then show ?thesis
    using JoinPath_not_empty [OF assms, of qs] by (simp add: Join_two)
qed

lemma JoinPath_examples:
  "JoinPath ''/tmp/'' [''foo'', ''bar''] = ''/tmp/foo/bar''"
  "JoinPath (JoinPath ''foo'' []) [''bar''] = ''foo/bar''"
  by code_simp+

text \<open>
  C7. \<open>JoinPath\<close> takes the components in order: each step appends a separator and the
  component to the path so far and cleans the result. A component that starts with a
  separator is joined like the same component without it. On plain names the result is
  the names with separators between them, below the root when the receiver is. The two
  examples of the spec evaluate as it says.
\<close>

theorem JoinPath_segments:
  "JoinPath p [] = p \<and>
   (p \<noteq> [] \<longrightarrow> JoinPath p (qs @ [q]) = filepath_Clean (JoinPath p qs @ ''/'' @ q)) \<and>
   (p \<noteq> [] \<longrightarrow> JoinPath p (map (\<lambda>q. CHR ''/'' # q) qs) = JoinPath p qs) \<and>
   (ns \<noteq> [] \<and> (\<forall>n\<in>set ns. plain_name n) \<and> (\<forall>q\<in>set qs. plain_name q) \<longrightarrow>
      JoinPath (strings_Join ns ''/'') qs = strings_Join (ns @ qs) ''/'' \<and>
      JoinPath (CHR ''/'' # strings_Join ns ''/'') qs = CHR ''/'' # strings_Join (ns @ qs) ''/'') \<and>
   JoinPath ''/tmp/'' [''foo'', ''bar''] = ''/tmp/foo/bar'' \<and>
   JoinPath (JoinPath ''foo'' []) [''bar''] = ''foo/bar''"
proof (intro conjI impI)
  show "JoinPath p [] = p" by (simp add: JoinPath_def)
next
  assume "p \<noteq> []"
  then show "JoinPath p (qs @ [q]) = filepath_Clean (JoinPath p qs @ ''/'' @ q)"
    by (rule JoinPath_snoc)
next
  assume "p \<noteq> []"
  then show "JoinPath p (map (\<lambda>q. CHR ''/'' # q) qs) = JoinPath p qs"
    by (rule JoinPath_rooted_components)
next
  assume a: "ns \<noteq> [] \<and> (\<forall>n\<in>set ns. plain_name n) \<and> (\<forall>q\<in>set qs. plain_name q)"
  then show "JoinPath (strings_Join ns ''/'') qs = strings_Join (ns @ qs) ''/''"
    using JoinPath_plain(1) [of ns qs] by blast
  from a show "JoinPath (CHR ''/'' # strings_Join ns ''/'') qs
                 = CHR ''/'' # strings_Join (ns @ qs) ''/''"
    using JoinPath_plain(2) [of ns qs] by blast
next
  show "JoinPath ''/tmp/'' [''foo'', ''bar''] = ''/tmp/foo/bar''"
    by (rule JoinPath_examples)
next
  show "JoinPath (JoinPath ''foo'' []) [''bar''] = ''foo/bar''"
    by (rule JoinPath_examples)
qed

theorem JoinPath_segments_witness:
  "JoinPath ''/tmp'' [''/foo'', ''/bar''] = ''/tmp/foo/bar'' \<and>
   JoinPath ''var'' [''log'', ''messages''] = ''var/log/messages'' \<and>
   JoinPath ''/tmp'' [''foo'', ''bar''] = filepath_Clean (JoinPath ''/tmp'' [''foo''] @ ''/'' @ ''bar'')"
proof -
  have pl: "[''tmp''] \<noteq> [] \<and> (\<forall>n\<in>set [''tmp'']. plain_name n) \<and>
            (\<forall>q\<in>set [''foo'', ''bar'']. plain_name q)"
    by (simp add: plain_name_def)
  have pl': "[''var''] \<noteq> [] \<and> (\<forall>n\<in>set [''var'']. plain_name n) \<and>
             (\<forall>q\<in>set [''log'', ''messages'']. plain_name q)"
    by (simp add: plain_name_def)
  have ne: "''/tmp'' \<noteq> []" by simp
  from JoinPath_segments [of "''/tmp''" "[''foo'', ''bar'']" "''x''" "[''tmp'']"] pl ne
  have 1: "JoinPath ''/tmp'' [''/foo'', ''/bar''] = JoinPath ''/tmp'' [''foo'', ''bar'']"
    and 2: "JoinPath ''/tmp'' [''foo'', ''bar''] = ''/tmp/foo/bar''"
    by simp_all
  from JoinPath_segments [of "''var''" "[''log'', ''messages'']" "''x''" "[''var'']"] pl'
  have 3: "JoinPath ''var'' [''log'', ''messages''] = ''var/log/messages''"
    by simp
  from JoinPath_segments [of "''/tmp''" "[''foo'']" "''bar''" "[''tmp'']"] ne
  have 4: "JoinPath ''/tmp'' [''foo'', ''bar'']
             = filepath_Clean (JoinPath ''/tmp'' [''foo''] @ ''/'' @ ''bar'')"
    by simp
  from 1 2 3 4 show ?thesis by simp
qed

section \<open>Inspection and resolution\<close>

lemma Exists_iff:
  "Exists h w p = (\<exists>absPath info. filepath_Abs h w p = Inr absPath \<and> os_Stat h w absPath = Inr info)"
  by (auto simp: Exists_def split: sum.splits)

lemma IsDir_Exists: "IsDir h w p \<Longrightarrow> Exists h w p"
  by (auto simp: IsDir_def Exists_def split: sum.splits)

lemma IsFile_Exists: "IsFile h w p \<Longrightarrow> Exists h w p"
  by (auto simp: IsFile_def Exists_def split: sum.splits)

text \<open>
  C4. \<open>Exists\<close>, \<open>IsDir\<close> and \<open>IsFile\<close> return a truth value for every host, state and
  path. When the absolute form cannot be computed, and when the status query on it fails
  with any error, all three are false; \<open>Exists\<close> is true exactly when both succeed, and
  the other two are true only then.
\<close>

theorem queries_collapse_failures:
  "(\<forall>err. filepath_Abs h w p = Inl err \<longrightarrow>
      \<not> Exists h w p \<and> \<not> IsDir h w p \<and> \<not> IsFile h w p) \<and>
   (\<forall>absPath err. filepath_Abs h w p = Inr absPath \<and> os_Stat h w absPath = Inl err \<longrightarrow>
      \<not> Exists h w p \<and> \<not> IsDir h w p \<and> \<not> IsFile h w p) \<and>
   (Exists h w p =
      (\<exists>absPath info. filepath_Abs h w p = Inr absPath \<and> os_Stat h w absPath = Inr info)) \<and>
   (IsDir h w p \<or> IsFile h w p \<longrightarrow> Exists h w p)"
proof (intro conjI allI impI)
  fix err
  assume "filepath_Abs h w p = Inl err"
  then show "\<not> Exists h w p" "\<not> IsDir h w p" "\<not> IsFile h w p"
    by (simp_all add: Exists_def IsDir_def IsFile_def)
next
  fix absPath err
  assume "filepath_Abs h w p = Inr absPath \<and> os_Stat h w absPath = Inl err"
  then show "\<not> Exists h w p" "\<not> IsDir h w p" "\<not> IsFile h w p"
    by (simp_all add: Exists_def IsDir_def IsFile_def)
next
  show "Exists h w p =
          (\<exists>absPath info. filepath_Abs h w p = Inr absPath \<and> os_Stat h w absPath = Inr info)"
    by (rule Exists_iff)
next
  assume "IsDir h w p \<or> IsFile h w p"
  then show "Exists h w p"
    using IsDir_Exists [of h w p] IsFile_Exists [of h w p] by auto
qed

theorem queries_collapse_failures_witness:
  "filepath_Abs demo_host (demo_world\<lparr>cwd := None\<rparr>) ''etc'' = Inl (Errno 2) \<and>
   \<not> Exists demo_host (demo_world\<lparr>cwd := None\<rparr>) ''etc'' \<and>
   \<not> IsDir demo_host (demo_world\<lparr>cwd := None\<rparr>) ''etc'' \<and>
   \<not> IsFile demo_host (demo_world\<lparr>cwd := None\<rparr>) ''etc'' \<and>
   filepath_Abs demo_host demo_world ''nowhere'' = Inr ''/home/nowhere'' \<and>
   os_Stat demo_host demo_world ''/home/nowhere'' = Inl (Errno 2) \<and>
   \<not> Exists demo_host demo_world ''nowhere'' \<and>
   \<not> IsDir demo_host demo_world ''nowhere'' \<and>
   \<not> IsFile demo_host demo_world ''nowhere'' \<and>
   IsDir demo_host demo_world ''/etc'' \<and> Exists demo_host demo_world ''/etc''"
proof -
  have a: "filepath_Abs demo_host (demo_world\<lparr>cwd := None\<rparr>) ''etc'' = Inl (Errno 2)"
    by code_simp
  have b: "filepath_Abs demo_host demo_world ''nowhere'' = Inr ''/home/nowhere''"
    by code_simp
  have c: "os_Stat demo_host demo_world ''/home/nowhere'' = Inl (Errno 2)"
    by code_simp
  have d: "IsDir demo_host demo_world ''/etc''"
    by code_simp
  from queries_collapse_failures [of demo_host "demo_world\<lparr>cwd := None\<rparr>" "''etc''"] a
  have 1: "\<not> Exists demo_host (demo_world\<lparr>cwd := None\<rparr>) ''etc'' \<and>
           \<not> IsDir demo_host (demo_world\<lparr>cwd := None\<rparr>) ''etc'' \<and>
           \<not> IsFile demo_host (demo_world\<lparr>cwd := None\<rparr>) ''etc''"
    by blast
  from queries_collapse_failures [of demo_host demo_world "''nowhere''"] b c
  have 2: "\<not> Exists demo_host demo_world ''nowhere'' \<and>
           \<not> IsDir demo_host demo_world ''nowhere'' \<and>
           \<not> IsFile demo_host demo_world ''nowhere''"
    by blast
  from queries_collapse_failures [of demo_host demo_world "''/etc''"] d
  have 3: "Exists demo_host demo_world ''/etc''"
    by blast
  from a b c d 1 2 3 show ?thesis by simp
qed

text \<open>
  C3. \<open>Resolve\<close> returns an error exactly when the absolute form cannot be computed or
  the absolute path does not exist (as \<open>Exists\<close> reports it); with every error it returns
  the path it was given; and when the absolute path exists it returns that path and no
  error.
\<close>

theorem Resolve_errors:
  "(snd (Resolve h w p) \<noteq> None) =
     ((\<exists>err. filepath_Abs h w p = Inl err) \<or>
      (\<exists>absPath. filepath_Abs h w p = Inr absPath \<and> \<not> Exists h w absPath)) \<and>
   (snd (Resolve h w p) \<noteq> None \<longrightarrow> fst (Resolve h w p) = p) \<and>
   (\<forall>absPath. filepath_Abs h w p = Inr absPath \<and> Exists h w absPath \<longrightarrow>
      Resolve h w p = (absPath, None))"
  by (auto simp: Resolve_def Let_def split: sum.splits)

theorem Resolve_errors_witness:
  "Resolve demo_host demo_world ''/etc/../etc/passwd'' = (''/etc/passwd'', None) \<and>
   snd (Resolve demo_host demo_world ''nowhere'') \<noteq> None \<and>
   fst (Resolve demo_host demo_world ''nowhere'') = ''nowhere'' \<and>
   snd (Resolve demo_host (demo_world\<lparr>cwd := None\<rparr>) ''etc'') \<noteq> None \<and>
   fst (Resolve demo_host (demo_world\<lparr>cwd := None\<rparr>) ''etc'') = ''etc''"
proof -
  have a: "filepath_Abs demo_host demo_world ''/etc/../etc/passwd'' = Inr ''/etc/passwd''"
    by code_simp
  have a': "Exists demo_host demo_world ''/etc/passwd''"
    by code_simp
  have b: "filepath_Abs demo_host demo_world ''nowhere'' = Inr ''/home/nowhere''"
    by code_simp
  have b': "\<not> Exists demo_host demo_world ''/home/nowhere''"
    by code_simp
  have c: "filepath_Abs demo_host (demo_world\<lparr>cwd := None\<rparr>) ''etc'' = Inl (Errno 2)"
    by code_simp
  from Resolve_errors [of demo_host demo_world "''/etc/../etc/passwd''"] a a'
  have 1: "Resolve demo_host demo_world ''/etc/../etc/passwd'' = (''/etc/passwd'', None)"
    by blast
  from Resolve_errors [of demo_host demo_world "''nowhere''"] b b'
  have 2: "snd (Resolve demo_host demo_world ''nowhere'') \<noteq> None \<and>
           fst (Resolve demo_host demo_world ''nowhere'') = ''nowhere''"
    by blast
  from Resolve_errors [of demo_host "demo_world\<lparr>cwd := None\<rparr>" "''etc''"] c
  have 3: "snd (Resolve demo_host (demo_world\<lparr>cwd := None\<rparr>) ''etc'') \<noteq> None \<and>
           fst (Resolve demo_host (demo_world\<lparr>cwd := None\<rparr>) ''etc'') = ''etc''"
    by blast
  from 1 2 3 show ?thesis by simp
qed

section \<open>Mutating operations\<close>

text \<open>
  C2. When the path exists, \<open>Mkdir\<close> returns an error and leaves the state of the host as
  it was. When it does not, \<open>Mkdir\<close> is the host's \<^verbatim>\<open>os.MkdirAll\<close>, the primitive that makes
  a directory together with its missing parents, called on the path with the mode
  \<^verbatim>\<open>0755\<close> (\<open>0x1ED\<close>), from which the host removes the bits of the process's umask.
\<close>

theorem Mkdir_spec:
  "(Exists h w p \<longrightarrow>
      Mkdir h w p =
        (Some (Errorf (''Cannot make directory '' @ p @ '' because it already exists'')), w)) \<and>
   (\<not> Exists h w p \<longrightarrow> Mkdir h w p = os_MkdirAll h w p 0x1ED)"
  by (simp add: Mkdir_def)

theorem Mkdir_spec_witness:
  "Exists demo_host demo_world ''/etc'' \<and>
   Mkdir demo_host demo_world ''/etc'' =
     (Some (Errorf ''Cannot make directory /etc because it already exists''), demo_world) \<and>
   \<not> Exists demo_host demo_world ''/srv/a/b'' \<and>
   Mkdir demo_host demo_world ''/srv/a/b'' = os_MkdirAll demo_host demo_world ''/srv/a/b'' 0x1ED \<and>
   IsDir demo_host (snd (Mkdir demo_host demo_world ''/srv/a/b'')) ''/srv'' \<and>
   IsDir demo_host (snd (Mkdir demo_host demo_world ''/srv/a/b'')) ''/srv/a'' \<and>
   IsDir demo_host (snd (Mkdir demo_host demo_world ''/srv/a/b'')) ''/srv/a/b''"
proof -
  have a: "Exists demo_host demo_world ''/etc''"
    by code_simp
  have b: "\<not> Exists demo_host demo_world ''/srv/a/b''"
    by code_simp
  from Mkdir_spec [of demo_host demo_world "''/etc''"] a
  have 1: "Mkdir demo_host demo_world ''/etc'' =
             (Some (Errorf ''Cannot make directory /etc because it already exists''), demo_world)"
    by simp
  from Mkdir_spec [of demo_host demo_world "''/srv/a/b''"] b
  have 2: "Mkdir demo_host demo_world ''/srv/a/b'' =
             os_MkdirAll demo_host demo_world ''/srv/a/b'' 0x1ED"
    by simp
  have 3: "IsDir demo_host (snd (os_MkdirAll demo_host demo_world ''/srv/a/b'' 0x1ED)) ''/srv''"
    by code_simp
  have 4: "IsDir demo_host (snd (os_MkdirAll demo_host demo_world ''/srv/a/b'' 0x1ED)) ''/srv/a''"
    by code_simp
  have 5: "IsDir demo_host (snd (os_MkdirAll demo_host demo_world ''/srv/a/b'' 0x1ED)) ''/srv/a/b''"
    by code_simp
  from a b 1 2 3 4 5 show ?thesis by simp
qed

lemma Mkdir_part_000_spec:
  "(Exists h w p \<longrightarrow>
      Mkdir_part_000 h w p =
        (Some (Errorf (''Cannot make directory '' @ p @ '' because it already exists'')), w)) \<and>
   (\<forall>err. \<not> Exists h w p \<and> Permissions h w (Parent p) = Inl err \<longrightarrow>
      Mkdir_part_000 h w p = (Some err, w)) \<and>
   (\<forall>perms. \<not> Exists h w p \<and> Permissions h w (Parent p) = Inr perms \<longrightarrow>
      Mkdir_part_000 h w p = os_Mkdir h w p (perms OR 0x1C0))"
  by (simp add: Mkdir_part_000_def Let_def)

text \<open>
  C9. Once \<^verbatim>\<open>os.Create\<close> has returned a file, \<open>WriteBytes\<close> returns the error of the write
  (none when it succeeded) and the state its caller sees is the one \<^verbatim>\<open>Close\<close> leaves,
  called on that file after the write, whether the write failed or not.
\<close>

theorem WriteBytes_closes:
  assumes "os_Create h w p = (Inr outfile, w1)"
    and "File_Write h w1 outfile data = ((n, err), w2)"
  shows "WriteBytes h w p data = (err, snd (File_Close h w2 outfile))"
  using assms by (cases err) (simp_all add: WriteBytes_def)

theorem WriteBytes_closes_witness:
  "WriteBytes demo_host demo_world ''/home/x'' [1, 2, 3] =
     (None, demo_world\<lparr>nodes := (''/home/x'', Entry 0x1B6) # nodes demo_world\<rparr>) \<and>
   open_files (snd (WriteBytes demo_host demo_world ''/home/x'' [1, 2, 3])) = [] \<and>
   fst (WriteBytes demo_host (demo_world\<lparr>write_error := Some (Errno 28)\<rparr>) ''/home/x'' [1, 2, 3])
     = Some (Errno 28) \<and>
   open_files (snd (WriteBytes demo_host (demo_world\<lparr>write_error := Some (Errno 28)\<rparr>)
     ''/home/x'' [1, 2, 3])) = []"
proof -
  let ?w1 = "demo_world\<lparr>nodes := (''/home/x'', Entry 0x1B6) # nodes demo_world, open_files := [3]\<rparr>"
  let ?v = "demo_world\<lparr>write_error := Some (Errno 28)\<rparr>"
  let ?v1 = "?v\<lparr>nodes := (''/home/x'', Entry 0x1B6) # nodes ?v, open_files := [3]\<rparr>"
  have c: "os_Create demo_host demo_world ''/home/x'' = (Inr 3, ?w1)"
    by (simp add: demo_host_def demo_world_def)
  have wr: "File_Write demo_host ?w1 3 [1, 2, 3] = ((3, None), ?w1)"
    by (simp add: demo_host_def demo_world_def)
  have cl: "snd (File_Close demo_host ?w1 3)
              = demo_world\<lparr>nodes := (''/home/x'', Entry 0x1B6) # nodes demo_world\<rparr>"
    by (simp add: demo_host_def demo_world_def)
  have c': "os_Create demo_host ?v ''/home/x'' = (Inr 3, ?v1)"
    by (simp add: demo_host_def demo_world_def)
  have wr': "File_Write demo_host ?v1 3 [1, 2, 3] = ((0, Some (Errno 28)), ?v1)"
    by (simp add: demo_host_def demo_world_def)
  have cl': "open_files (snd (File_Close demo_host ?v1 3)) = []"
    by (simp add: demo_host_def demo_world_def)
  from WriteBytes_closes [OF c wr] cl
  have 1: "WriteBytes demo_host demo_world ''/home/x'' [1, 2, 3] =
             (None, demo_world\<lparr>nodes := (''/home/x'', Entry 0x1B6) # nodes demo_world\<rparr>)"
    by simp
  then have 2: "open_files (snd (WriteBytes demo_host demo_world ''/home/x'' [1, 2, 3])) = []"
    by (simp add: demo_world_def)
  from WriteBytes_closes [OF c' wr'] cl'
  have 3: "fst (WriteBytes demo_host ?v ''/home/x'' [1, 2, 3]) = Some (Errno 28) \<and>
           open_files (snd (WriteBytes demo_host ?v ''/home/x'' [1, 2, 3])) = []"
    by simp
  from 1 2 3 show ?thesis by simp
qed

section \<open>Opening a file\<close>

lemma Contains_char: "strings_Contains s [c] = (c \<in> set s)"
  by (induction s) auto

text \<open>
  C5. Opening a directory fails, with the state of the host unchanged. Otherwise, for a
  mode with \<^verbatim>\<open>r\<close> or \<^verbatim>\<open>w\<close> in it, the host's \<^verbatim>\<open>os.OpenFile\<close> is called with the flag made
  of the access mode (read-write for both letters, read-only for \<^verbatim>\<open>r\<close> alone, write-only
  for \<^verbatim>\<open>w\<close> alone), the append flag when the mode has a \<^verbatim>\<open>+\<close>, and the create flag when the
  path does not exist.
\<close>

theorem OpenWithPermissions_flags:
  "(IsDir h w p \<longrightarrow>
      OpenWithPermissions h w p mode perms =
        (Inl (Errorf (''Cannot open '' @ p @ '' because it is a directory.'')), w)) \<and>
   (\<not> IsDir h w p \<and> (CHR ''r'' \<in> set mode \<or> CHR ''w'' \<in> set mode) \<longrightarrow>
      OpenWithPermissions h w p mode perms =
        os_OpenFile h w p
          (((if CHR ''r'' \<in> set mode \<and> CHR ''w'' \<in> set mode then O_RDWR
             else if CHR ''r'' \<in> set mode then O_RDONLY
             else O_WRONLY)
            OR (if CHR ''+'' \<in> set mode then O_APPEND else 0))
           OR (if Exists h w p then 0 else O_CREATE))
          perms)"
  by (auto simp: OpenWithPermissions_def Let_def Contains_char)

theorem OpenWithPermissions_flags_witness:
  "OpenWithPermissions demo_host demo_world ''/home'' ''rw'' 0x1A4 =
     (Inl (Errorf ''Cannot open /home because it is a directory.''), demo_world) \<and>
   OpenWithPermissions demo_host demo_world ''/home/x'' ''rw+'' 0x1A4 =
     os_OpenFile demo_host demo_world ''/home/x'' ((O_RDWR OR O_APPEND) OR O_CREATE) 0x1A4 \<and>
   OpenWithPermissions demo_host demo_world ''/etc/passwd'' ''r'' 0x1A4 =
     os_OpenFile demo_host demo_world ''/etc/passwd'' O_RDONLY 0x1A4 \<and>
   OpenWithPermissions demo_host demo_world ''/etc/passwd'' ''w'' 0x1A4 =
     os_OpenFile demo_host demo_world ''/etc/passwd'' O_WRONLY 0x1A4"
proof -
  have d: "IsDir demo_host demo_world ''/home''" by code_simp
  have x: "\<not> IsDir demo_host demo_world ''/home/x''" by code_simp
  have x': "\<not> Exists demo_host demo_world ''/home/x''" by code_simp
  have f: "\<not> IsDir demo_host demo_world ''/etc/passwd''" by code_simp
  have f': "Exists demo_host demo_world ''/etc/passwd''" by code_simp
  from OpenWithPermissions_flags [of demo_host demo_world "''/home''" "''rw''" "0x1A4"] d
  have 1: "OpenWithPermissions demo_host demo_world ''/home'' ''rw'' 0x1A4 =
             (Inl (Errorf ''Cannot open /home because it is a directory.''), demo_world)"
    by simp
  from OpenWithPermissions_flags [of demo_host demo_world "''/home/x''" "''rw+''" "0x1A4"] x x'
  have 2: "OpenWithPermissions demo_host demo_world ''/home/x'' ''rw+'' 0x1A4 =
             os_OpenFile demo_host demo_world ''/home/x'' ((O_RDWR OR O_APPEND) OR O_CREATE) 0x1A4"
    by simp
  from OpenWithPermissions_flags [of demo_host demo_world "''/etc/passwd''" "''r''" "0x1A4"] f f'
  have 3: "OpenWithPermissions demo_host demo_world ''/etc/passwd'' ''r'' 0x1A4 =
             os_OpenFile demo_host demo_world ''/etc/passwd'' O_RDONLY 0x1A4"
    by simp
  from OpenWithPermissions_flags [of demo_host demo_world "''/etc/passwd''" "''w''" "0x1A4"] f f'
  have 4: "OpenWithPermissions demo_host demo_world ''/etc/passwd'' ''w'' 0x1A4 =
             os_OpenFile demo_host demo_world ''/etc/passwd'' O_WRONLY 0x1A4"
    by simp
  from 1 2 3 4 show ?thesis by simp
qed

text \<open>
  C10. For a mode with neither \<^verbatim>\<open>r\<close> nor \<^verbatim>\<open>w\<close> in it, the access mode is read-only: the
  file is opened with \<^verbatim>\<open>O_RDONLY\<close>, to which the append and create flags are added as for
  any other mode. \<open>Open\<close> is the same with the permissions \<^verbatim>\<open>0755\<close>.
\<close>

theorem OpenWithPermissions_default_read_only:
  assumes "\<not> IsDir h w p" and "CHR ''r'' \<notin> set mode" and "CHR ''w'' \<notin> set mode"
  shows "OpenWithPermissions h w p mode perms =
           os_OpenFile h w p
             ((O_RDONLY OR (if CHR ''+'' \<in> set mode then O_APPEND else 0))
                OR (if Exists h w p then 0 else O_CREATE))
             perms
         \<and> Open h w p mode = OpenWithPermissions h w p mode 0x1ED"
  using assms by (auto simp: OpenWithPermissions_def Open_def Let_def Contains_char)

theorem OpenWithPermissions_default_read_only_witness:
  "OpenWithPermissions demo_host demo_world ''/etc/passwd'' [] 0x1A4 =
     os_OpenFile demo_host demo_world ''/etc/passwd'' O_RDONLY 0x1A4 \<and>
   OpenWithPermissions demo_host demo_world ''/home/x'' ''+'' 0x1A4 =
     os_OpenFile demo_host demo_world ''/home/x'' ((O_RDONLY OR O_APPEND) OR O_CREATE) 0x1A4"
proof -
  have x: "\<not> IsDir demo_host demo_world ''/home/x''" by code_simp
  have x': "\<not> Exists demo_host demo_world ''/home/x''" by code_simp
  have f: "\<not> IsDir demo_host demo_world ''/etc/passwd''" by code_simp
  have f': "Exists demo_host demo_world ''/etc/passwd''" by code_simp
  from OpenWithPermissions_default_read_only [OF f, of "[]" "0x1A4"] f'
  have 1: "OpenWithPermissions demo_host demo_world ''/etc/passwd'' [] 0x1A4 =
             os_OpenFile demo_host demo_world ''/etc/passwd'' O_RDONLY 0x1A4"
    by simp
  from OpenWithPermissions_default_read_only [OF x, of "''+''" "0x1A4"] x'
  have 2: "OpenWithPermissions demo_host demo_world ''/home/x'' ''+'' 0x1A4 =
             os_OpenFile demo_host demo_world ''/home/x'' ((O_RDONLY OR O_APPEND) OR O_CREATE) 0x1A4"
    by simp
  from 1 2 show ?thesis by simp
qed

end
